theory Spec2Isabelle
  imports Complex_Main
begin

section \<open>Blink Monitor: the session state\<close>

text \<open>
  The model follows \<^verbatim>\<open>Blink_Monitor.py\<close>. The keys of \<^verbatim>\<open>st.session_state\<close>
  are the fields of one record that every operation takes and returns. Python floats
  (landmark coordinates, \<^verbatim>\<open>time.time()\<close> readings) are real numbers here, Python's
  unbounded integers are \<open>int\<close>, and \<^verbatim>\<open>None\<close> is the \<open>None\<close> of an option.
  The reals stand for finite floats: comparisons and the sign of a difference are the
  same on both, while the rounding of the product in line 119 and the values
  \<^verbatim>\<open>nan\<close> and \<^verbatim>\<open>inf\<close> are not modelled.
\<close>

record session =
  blink_count :: int
  eyes_closed :: bool
  open_eye_reference :: "real option"
  minute_start :: real
  start_time :: real
  show_reminder :: bool
  reminder_start :: real
  camera_active :: bool

definition BLINK_RATIO :: real where
  "BLINK_RATIO = 4 / 10"

definition TOTAL_TIME :: int where
  "TOTAL_TIME = 5 * 60"

definition REMINDER_DURATION :: int where
  "REMINDER_DURATION = 10"

definition NORMAL_MAX :: int where
  "NORMAL_MAX = 20"

text \<open>
  Lines 10-25: the keys missing from the session state get their defaults. On a fresh
  session all of them are missing; the two clock readings are those of lines 17 and 19.
\<close>

definition initial_session :: "real \<Rightarrow> real \<Rightarrow> session" where
  "initial_session t_minute t_start =
     \<lparr> blink_count = 0, eyes_closed = False, open_eye_reference = None,
       minute_start = t_minute, start_time = t_start,
       show_reminder = False, reminder_start = 0, camera_active = False \<rparr>"

text \<open>
  Lines 65-73, the body of the Start Camera button (the button is disabled while
  \<open>camera_active\<close> holds). The clock is read twice, at lines 70 and 71.
\<close>

definition start_camera :: "real \<Rightarrow> real \<Rightarrow> session \<Rightarrow> session" where
  "start_camera t_minute t_start st =
     st\<lparr> camera_active := True, blink_count := 0, eyes_closed := False,
         open_eye_reference := None, minute_start := t_minute,
         start_time := t_start, show_reminder := False \<rparr>"

text \<open>Lines 76-78, the body of the Stop Camera button.\<close>

definition stop_camera :: "session \<Rightarrow> session" where
  "stop_camera st = st\<lparr> camera_active := False \<rparr>"

section \<open>One frame of input\<close>

text \<open>
  Everything one iteration of the loop reads from outside: whether \<^verbatim>\<open>camera.read()\<close>
  succeeded, what the face mesh found (\<open>None\<close> when \<^verbatim>\<open>results.multi_face_landmarks\<close>
  is empty, otherwise the \<open>y\<close> coordinates of landmarks 159 and 145 of the first face),
  and the value of each call of \<^verbatim>\<open>time.time()\<close> in the body, one field per call site
  (lines 127, 130, 133, 136, 169 and 177).
\<close>

record frame_input =
  read_success :: bool
  landmarks :: "(real \<times> real) option"
  t_minute_check :: real
  t_reminder_set :: real
  t_minute_reset :: real
  t_total :: real
  t_reminder_check :: real
  t_blink_phase :: real

section \<open>Blink detection (lines 107-124)\<close>

text \<open>Line 113.\<close>

definition eye_opening :: "real \<Rightarrow> real \<Rightarrow> real" where
  "eye_opening top_y bottom_y = \<bar>top_y - bottom_y\<bar>"

text \<open>Lines 115-116.\<close>

definition update_reference :: "real \<Rightarrow> session \<Rightarrow> session" where
  "update_reference eo st =
     (case open_eye_reference st of
        None \<Rightarrow> st\<lparr> open_eye_reference := Some eo \<rparr>
      | Some r \<Rightarrow> if eo > r then st\<lparr> open_eye_reference := Some eo \<rparr> else st)"

text \<open>
  Lines 118-119: which way the two tests go. The guard \<^verbatim>\<open>if open_eye_reference:\<close>
  is Python truthiness, false for \<^verbatim>\<open>None\<close> and for \<^verbatim>\<open>0.0\<close>; only when it holds is
  the sample compared with the threshold.
\<close>

datatype branch = Skipped | Below | NotBelow

definition threshold_guard :: "real \<Rightarrow> session \<Rightarrow> branch" where
  "threshold_guard eo st =
     (case open_eye_reference st of
        None \<Rightarrow> Skipped
      | Some r \<Rightarrow>
          if r = 0 then Skipped
          else if eo < r * BLINK_RATIO then Below
          else NotBelow)"

text \<open>Lines 118-124.\<close>

definition detect_blink :: "real \<Rightarrow> session \<Rightarrow> session" where
  "detect_blink eo st =
     (case threshold_guard eo st of
        Skipped \<Rightarrow> st
      | Below \<Rightarrow>
          if \<not> eyes_closed st
          then st\<lparr> blink_count := blink_count st + 1, eyes_closed := True \<rparr>
          else st
      | NotBelow \<Rightarrow> st\<lparr> eyes_closed := False \<rparr>)"

text \<open>
  Lines 107-124: without a face no sample is computed and the whole block is skipped.
\<close>

definition openness_sample :: "(real \<times> real) option \<Rightarrow> real option" where
  "openness_sample lm =
     (case lm of
        None \<Rightarrow> None
      | Some (top_y, bottom_y) \<Rightarrow> Some (eye_opening top_y bottom_y))"

definition blink_detection :: "(real \<times> real) option \<Rightarrow> session \<Rightarrow> session" where
  "blink_detection lm st =
     (case openness_sample lm of
        None \<Rightarrow> st
      | Some eo \<Rightarrow> detect_blink eo (update_reference eo st))"

section \<open>Minute handling (lines 127-133)\<close>

definition minute_due :: "frame_input \<Rightarrow> session \<Rightarrow> bool" where
  "minute_due f st = (t_minute_check f - minute_start st \<ge> 60)"

definition minute_handling :: "frame_input \<Rightarrow> session \<Rightarrow> session" where
  "minute_handling f st =
     (if minute_due f st then
        (if blink_count st < NORMAL_MAX
         then st\<lparr> show_reminder := True, reminder_start := t_reminder_set f \<rparr>
         else st)
        \<lparr> blink_count := 0, minute_start := t_minute_reset f \<rparr>
      else st)"

section \<open>Overlay and reminder (lines 142-191)\<close>

text \<open>Python's \<^verbatim>\<open>int()\<close> of a float truncates towards zero.\<close>

definition py_int :: "real \<Rightarrow> int" where
  "py_int x = (if 0 \<le> x then \<lfloor>x\<rfloor> else \<lceil>x\<rceil>)"

text \<open>
  What is drawn on the frame before it is shown: the two texts of lines 147-165, and
  whether the eye glyph with its label (lines 170-189) and the pupil (line 179) are drawn.
\<close>

record overlay =
  shown_blinks :: int
  minutes_left :: int
  seconds_left :: int
  reminder_glyph :: bool
  pupil :: bool

text \<open>Lines 168-191: the glyph is drawn, or the reminder is switched off.\<close>

definition reminder_visible :: "frame_input \<Rightarrow> session \<Rightarrow> bool" where
  "reminder_visible f st =
     (show_reminder st \<and> t_reminder_check f - reminder_start st \<le> real_of_int REMINDER_DURATION)"

definition gentle_reminder :: "frame_input \<Rightarrow> session \<Rightarrow> session" where
  "gentle_reminder f st =
     (if show_reminder st then
        (if t_reminder_check f - reminder_start st \<le> real_of_int REMINDER_DURATION
         then st
         else st\<lparr> show_reminder := False \<rparr>)
      else st)"

definition draw_overlay :: "frame_input \<Rightarrow> session \<Rightarrow> overlay" where
  "draw_overlay f st =
     (let total_elapsed = t_total f - start_time st;
          remaining = TOTAL_TIME - py_int total_elapsed
      in \<lparr> shown_blinks = blink_count st,
           minutes_left = remaining div 60,
           seconds_left = remaining mod 60,
           reminder_glyph = reminder_visible f st,
           pupil = (reminder_visible f st \<and> py_int (t_blink_phase f * 2) mod 2 = 0) \<rparr>)"

section \<open>The camera loop (lines 81-206)\<close>

text \<open>What the script does to the outside, in the order it does it.\<close>

datatype effect =
    CameraOpen
  | CameraRelease
  | FaceMeshClose
  | StError string
  | StSuccess string
  | ShowFrame overlay
  | Sleep
  | Rerun
  | StInfo

definition failed_msg :: string where
  "failed_msg = ''Failed to access camera''"

text \<open>The text of line 139; it starts with U+2705 in UTF-8.\<close>

definition completed_msg :: string where
  "completed_msg = [CHR 0xE2, CHR 0x9C, CHR 0x85] @ '' Session completed! Great job!''"

text \<open>
  One iteration of the \<^verbatim>\<open>while\<close> body, lines 97-199: it either reaches the end of the
  body (\<open>Continue\<close>) or leaves the loop through one of the two \<^verbatim>\<open>break\<close>s.
\<close>

datatype step = Continue session "effect list" | Break session "effect list"

definition loop_body :: "frame_input \<Rightarrow> session \<Rightarrow> step" where
  "loop_body f st =
     (if \<not> read_success f then Break st [StError failed_msg]
      else
        let st1 = blink_detection (landmarks f) st;
            st2 = minute_handling f st1
        in if t_total f - start_time st2 \<ge> real_of_int TOTAL_TIME
           then Break (st2\<lparr> camera_active := False \<rparr>) [StSuccess completed_msg]
           else Continue (gentle_reminder f st2) [ShowFrame (draw_overlay f st2), Sleep])"

text \<open>
  The \<^verbatim>\<open>while\<close> loop of line 96 over the frames the outside delivers. The result says
  whether the loop was left: when the frames run out while the condition still holds,
  the loop is still waiting for the next frame.
\<close>

fun camera_loop :: "bool \<Rightarrow> frame_input list \<Rightarrow> session \<Rightarrow> bool \<times> session \<times> effect list" where
  "camera_loop stop_button [] st = (\<not> (camera_active st \<and> \<not> stop_button), st, [])"
| "camera_loop stop_button (f # fs) st =
     (if camera_active st \<and> \<not> stop_button then
        (case loop_body f st of
           Break st' es \<Rightarrow> (True, st', es)
         | Continue st' es \<Rightarrow>
             (case camera_loop stop_button fs st' of
                (left, st'', es') \<Rightarrow> (left, st'', es @ es')))
      else (True, st, []))"

text \<open>
  Lines 81-216: the camera block of one run of the script. \<open>stop_button\<close> is the value
  of the button of line 94, read once before the loop.
\<close>

definition camera_feed :: "bool \<Rightarrow> frame_input list \<Rightarrow> session \<Rightarrow> bool \<times> session \<times> effect list" where
  "camera_feed stop_button fs st =
     (if camera_active st then
        (case camera_loop stop_button fs st of
           (left, st', es) \<Rightarrow>
             if \<not> left then (False, st', CameraOpen # es)
             else if stop_button
               then (True, st'\<lparr> camera_active := False \<rparr>,
                     CameraOpen # es @ [CameraRelease, FaceMeshClose, Rerun])
               else (True, st', CameraOpen # es @ [CameraRelease, FaceMeshClose]))
      else (True, st, [StInfo]))"

section \<open>Auxiliary notions for the properties\<close>

text \<open>The session a loop iteration leaves behind, and what it showed.\<close>

fun step_session :: "step \<Rightarrow> session" where
  "step_session (Continue st es) = st"
| "step_session (Break st es) = st"

fun step_effects :: "step \<Rightarrow> effect list" where
  "step_effects (Continue st es) = es"
| "step_effects (Break st es) = es"

fun shows_glyph :: "effect \<Rightarrow> bool" where
  "shows_glyph (ShowFrame ov) = reminder_glyph ov"
| "shows_glyph e = False"

definition glyph_drawn :: "step \<Rightarrow> bool" where
  "glyph_drawn s = list_ex shows_glyph (step_effects s)"

text \<open>
  The reminder is activated by an iteration when the minute is due and the count read
  at line 128, the one blink detection has just left, is below \<open>NORMAL_MAX\<close>.
\<close>

definition activates :: "frame_input \<Rightarrow> session \<Rightarrow> bool" where
  "activates f st =
     (read_success f \<and> minute_due f (blink_detection (landmarks f) st)
      \<and> blink_count (blink_detection (landmarks f) st) < NORMAL_MAX)"

text \<open>
  The detection branch of lines 118-124 run over a sequence of samples. It never writes
  the reference, so the whole sequence is processed with the reference of the start.
\<close>

fun detect_samples :: "real list \<Rightarrow> session \<Rightarrow> session" where
  "detect_samples [] st = st"
| "detect_samples (eo # eos) st = detect_samples eos (detect_blink eo st)"

text \<open>The whole of lines 107-124 run over a sequence of face-detected frames.\<close>

fun detect_frames :: "(real \<times> real) list \<Rightarrow> session \<Rightarrow> session" where
  "detect_frames [] st = st"
| "detect_frames (lm # lms) st = detect_frames lms (blink_detection (Some lm) st)"

text \<open>
  The specification's count: a maximal run of samples below the threshold starts at
  index \<open>i\<close> when sample \<open>i\<close> is below it and \<open>i\<close> is the first index or sample
  \<open>i - 1\<close> is not below it. The maximal runs are as many as their starts.
\<close>

definition run_starts :: "real \<Rightarrow> real list \<Rightarrow> nat list" where
  "run_starts th xs =
     filter (\<lambda>i. xs ! i < th \<and> (i = 0 \<or> \<not> xs ! (i - 1) < th)) [0..<length xs]"

definition maximal_runs :: "real \<Rightarrow> real list \<Rightarrow> nat" where
  "maximal_runs th xs = length (run_starts th xs)"

text \<open>The same count by recursion, from a state that is closed or open.\<close>

fun runs_from :: "bool \<Rightarrow> real \<Rightarrow> real list \<Rightarrow> nat" where
  "runs_from was_closed th [] = 0"
| "runs_from was_closed th (x # xs) =
     (if x < th \<and> \<not> was_closed then 1 else 0) + runs_from (x < th) th xs"

text \<open>The order on the reference in which unset lies below every value.\<close>

fun ref_le :: "real option \<Rightarrow> real option \<Rightarrow> bool" where
  "ref_le None r = True"
| "ref_le (Some a) None = False"
| "ref_le (Some a) (Some b) = (a \<le> b)"

text \<open>How often the camera is released in a sequence of effects.\<close>

definition releases :: "effect list \<Rightarrow> nat" where
  "releases es = length (filter (\<lambda>e. e = CameraRelease) es)"

subsection \<open>Concrete inputs\<close>

text \<open>A frame that is read at time \<open>t\<close>, every clock reading of the iteration being \<open>t\<close>.\<close>

definition frame_at :: "real \<Rightarrow> (real \<times> real) option \<Rightarrow> frame_input" where
  "frame_at t lm =
     \<lparr> read_success = True, landmarks = lm, t_minute_check = t, t_reminder_set = t,
       t_minute_reset = t, t_total = t, t_reminder_check = t, t_blink_phase = t \<rparr>"

text \<open>A frame that \<^verbatim>\<open>camera.read()\<close> fails to deliver at time \<open>t\<close>.\<close>

definition failed_frame_at :: "real \<Rightarrow> frame_input" where
  "failed_frame_at t = (frame_at t None)\<lparr> read_success := False \<rparr>"

text \<open>A session started at time 0 on a fresh session state.\<close>

definition fresh_running :: session where
  "fresh_running = start_camera 0 0 (initial_session 0 0)"

text \<open>
  The session that the first frame of minute two leaves behind when no blink was counted
  in minute one: the reminder has just been activated at time 60.
\<close>

definition reminding_session :: session where
  "reminding_session = step_session (loop_body (frame_at 60 None) fresh_running)"

text \<open>
  A face-detected frame is below the threshold when, after line 116 has seen its sample,
  the comparison of line 119 is made and holds.
\<close>

definition frame_below :: "real \<times> real \<Rightarrow> session \<Rightarrow> bool" where
  "frame_below lm st =
     (threshold_guard (eye_opening (fst lm) (snd lm))
        (update_reference (eye_opening (fst lm) (snd lm)) st) = Below)"

text \<open>A running session, eyes open, whose reference has reached 0.10.\<close>

definition watching_session :: session where
  "watching_session = fresh_running\<lparr> open_eye_reference := Some (10 / 100) \<rparr>"

section \<open>Basic facts\<close>

lemmas const_defs = BLINK_RATIO_def TOTAL_TIME_def REMINDER_DURATION_def NORMAL_MAX_def

lemmas input_defs = frame_at_def failed_frame_at_def fresh_running_def start_camera_def
  initial_session_def

lemmas frame_defs = loop_body_def blink_detection_def openness_sample_def eye_opening_def
  update_reference_def detect_blink_def threshold_guard_def minute_handling_def
  minute_due_def gentle_reminder_def draw_overlay_def reminder_visible_def py_int_def

subsection \<open>Fields that a stage leaves alone\<close>

lemma update_reference_fields:
  "blink_count (update_reference eo st) = blink_count st"
  "eyes_closed (update_reference eo st) = eyes_closed st"
  "reminder_start (update_reference eo st) = reminder_start st"
  "show_reminder (update_reference eo st) = show_reminder st"
  "start_time (update_reference eo st) = start_time st"
  "minute_start (update_reference eo st) = minute_start st"
  "camera_active (update_reference eo st) = camera_active st"
  by (simp_all add: update_reference_def split: option.splits)

lemma detect_blink_fields:
  "open_eye_reference (detect_blink eo st) = open_eye_reference st"
  "reminder_start (detect_blink eo st) = reminder_start st"
  "show_reminder (detect_blink eo st) = show_reminder st"
  "start_time (detect_blink eo st) = start_time st"
  "minute_start (detect_blink eo st) = minute_start st"
  "camera_active (detect_blink eo st) = camera_active st"
  by (simp_all add: detect_blink_def split: branch.splits)

lemma blink_detection_fields:
  "reminder_start (blink_detection lm st) = reminder_start st"
  "show_reminder (blink_detection lm st) = show_reminder st"
  "start_time (blink_detection lm st) = start_time st"
  "minute_start (blink_detection lm st) = minute_start st"
  "camera_active (blink_detection lm st) = camera_active st"
  by (simp_all add: blink_detection_def detect_blink_fields update_reference_fields
      split: option.splits)

lemma minute_handling_fields:
  "open_eye_reference (minute_handling f st) = open_eye_reference st"
  "eyes_closed (minute_handling f st) = eyes_closed st"
  "start_time (minute_handling f st) = start_time st"
  "camera_active (minute_handling f st) = camera_active st"
  by (simp_all add: minute_handling_def)

lemma gentle_reminder_fields:
  "open_eye_reference (gentle_reminder f st) = open_eye_reference st"
  "eyes_closed (gentle_reminder f st) = eyes_closed st"
  "blink_count (gentle_reminder f st) = blink_count st"
  "reminder_start (gentle_reminder f st) = reminder_start st"
  "start_time (gentle_reminder f st) = start_time st"
  "minute_start (gentle_reminder f st) = minute_start st"
  "camera_active (gentle_reminder f st) = camera_active st"
  by (simp_all add: gentle_reminder_def)

text \<open>The session an iteration leaves, stage by stage.\<close>

lemma step_session_loop_body:
  "step_session (loop_body f st) =
     (if \<not> read_success f then st
      else if t_total f - start_time st \<ge> real_of_int TOTAL_TIME
        then (minute_handling f (blink_detection (landmarks f) st))\<lparr> camera_active := False \<rparr>
        else gentle_reminder f (minute_handling f (blink_detection (landmarks f) st)))"
  by (simp add: loop_body_def Let_def minute_handling_fields blink_detection_fields)

lemma reminding_session_eq:
  "reminding_session =
     \<lparr> blink_count = 0, eyes_closed = False, open_eye_reference = None,
       minute_start = 60, start_time = 0, show_reminder = True,
       reminder_start = 60, camera_active = True \<rparr>"
  by (simp add: reminding_session_def step_session_loop_body input_defs frame_defs const_defs)

lemma watching_session_eq:
  "watching_session =
     \<lparr> blink_count = 0, eyes_closed = False, open_eye_reference = Some (10 / 100),
       minute_start = 0, start_time = 0, show_reminder = False,
       reminder_start = 0, camera_active = True \<rparr>"
  by (simp add: watching_session_def fresh_running_def start_camera_def initial_session_def)

lemmas detect_defs = blink_detection_def openness_sample_def eye_opening_def
  update_reference_def detect_blink_def threshold_guard_def BLINK_RATIO_def

section \<open>The minute evaluation and an active reminder\<close>

text \<open>
  Claim C2 says that a minute evaluation which finds the reminder already active leaves
  its \<open>started_at\<close> alone. Lines 128-130 do not look at \<open>show_reminder\<close>: with a count
  below 20 they write \<open>reminder_start\<close> again. Here the reminder was activated at time
  60 and is still active when the next frame arrives at time 120 (no frame was processed
  in between); the evaluation of that frame moves \<open>reminder_start\<close> from 60 to 120.
\<close>

theorem minute_evaluation_restarts_reminder:
  "show_reminder reminding_session
   \<and> reminder_start reminding_session = 60
   \<and> minute_due (frame_at 120 None) reminding_session
   \<and> reminder_start (minute_handling (frame_at 120 None) reminding_session) = 120
   \<and> reminder_start (minute_handling (frame_at 120 None) reminding_session)
       \<noteq> reminder_start reminding_session"
  by (simp add: reminding_session_eq minute_handling_def minute_due_def frame_at_def const_defs)

text \<open>
  Claim C2, amended: when a minute evaluation occurs while the reminder is already
  active, the reminder stays active; its \<open>started_at\<close> is left unchanged when the
  minute's blink count is at least 20, and is set to the current time when the count is
  below 20.
\<close>

theorem minute_handling_active_reminder:
  assumes "show_reminder st" and "minute_due f st"
  shows "show_reminder (minute_handling f st)
       \<and> reminder_start (minute_handling f st) =
           (if blink_count st < NORMAL_MAX then t_reminder_set f else reminder_start st)"
  using assms by (simp add: minute_handling_def)

theorem minute_handling_active_reminder_witness:
  "show_reminder (reminding_session\<lparr> blink_count := 25 \<rparr>)
   \<and> minute_due (frame_at 120 None) (reminding_session\<lparr> blink_count := 25 \<rparr>)
   \<and> show_reminder (minute_handling (frame_at 120 None) (reminding_session\<lparr> blink_count := 25 \<rparr>))
   \<and> reminder_start (minute_handling (frame_at 120 None) (reminding_session\<lparr> blink_count := 25 \<rparr>)) = 60"
proof -
  have a: "show_reminder (reminding_session\<lparr> blink_count := 25 \<rparr>)"
    by (simp add: reminding_session_eq)
  have b: "minute_due (frame_at 120 None) (reminding_session\<lparr> blink_count := 25 \<rparr>)"
    by (simp add: reminding_session_eq minute_due_def frame_at_def)
  show ?thesis
    using a b minute_handling_active_reminder [OF a b]
    by (simp add: reminding_session_eq const_defs)
qed

section \<open>The minute reset\<close>

text \<open>
  Claim C3: when 60 seconds have elapsed since \<open>minute_start\<close>, the evaluation reads
  the blink count \<open>k\<close>; it activates the reminder (\<open>show_reminder\<close> true and
  \<open>reminder_start\<close> the current time) if \<open>k < 20\<close> and leaves the reminder as it
  was otherwise; and whatever \<open>k\<close> is, zero included, it sets the count to 0 and
  \<open>minute_start\<close> to the current time.
\<close>

theorem minute_handling_resets:
  assumes "t_minute_check f - minute_start st \<ge> 60"
  shows "blink_count (minute_handling f st) = 0
       \<and> minute_start (minute_handling f st) = t_minute_reset f
       \<and> (show_reminder (minute_handling f st), reminder_start (minute_handling f st)) =
           (if blink_count st < 20 then (True, t_reminder_set f)
            else (show_reminder st, reminder_start st))"
  using assms by (simp add: minute_handling_def minute_due_def NORMAL_MAX_def)

theorem minute_handling_resets_witness:
  "t_minute_check (frame_at 60 None) - minute_start fresh_running \<ge> 60
   \<and> blink_count fresh_running = 0
   \<and> blink_count (minute_handling (frame_at 60 None) fresh_running) = 0
   \<and> minute_start (minute_handling (frame_at 60 None) fresh_running) = 60
   \<and> show_reminder (minute_handling (frame_at 60 None) fresh_running)
   \<and> reminder_start (minute_handling (frame_at 60 None) fresh_running) = 60"
proof -
  have h: "t_minute_check (frame_at 60 None) - minute_start fresh_running \<ge> 60"
    by (simp add: input_defs)
  show ?thesis
    using h minute_handling_resets [OF h] by (simp add: input_defs)
qed

section \<open>A frame that cannot be read\<close>

lemma read_failure_leaves_session:
  assumes "camera_active st" and "\<not> read_success f"
  shows "camera_feed False (f # fs) st =
           (True, st, [CameraOpen, StError failed_msg, CameraRelease, FaceMeshClose])"
  using assms by (simp add: camera_feed_def loop_body_def)

text \<open>
  Claim C6 says that a failed read aborts the loop, releases the camera, shows an error
  and marks the session inactive. On a running session whose first read fails the loop
  is left at once, the error is shown and the camera is released once, but lines 98-100
  leave the loop without writing \<open>camera_active\<close>, which the other \<^verbatim>\<open>break\<close>
  (line 138) does: the session state is what it was, \<open>camera_active\<close> still true.
\<close>

theorem read_failure_keeps_camera_active:
  "camera_feed False [failed_frame_at 1] fresh_running =
     (True, fresh_running, [CameraOpen, StError failed_msg, CameraRelease, FaceMeshClose])
   \<and> camera_active fresh_running"
  by (simp add: camera_feed_def loop_body_def input_defs)

section \<open>Frames without a face, and a sample of zero\<close>



text \<open>
  Claim C10: when the two lid coordinates coincide the sample is 0; if the reference is
  unset (the first face-detected frame) or already 0, line 116 or the previous frame
  makes it 0, the guard of line 118 is false for it, no threshold comparison is made,
  and blink detection changes nothing but the reference: \<open>eyes_closed\<close> and the
  counter are as before.
\<close>

theorem zero_sample_skips_detection:
  assumes "open_eye_reference st = None \<or> open_eye_reference st = Some 0"
  shows "openness_sample (Some (y, y)) = Some 0
       \<and> open_eye_reference (update_reference 0 st) = Some 0
       \<and> threshold_guard 0 (update_reference 0 st) = Skipped
       \<and> blink_detection (Some (y, y)) st = st\<lparr> open_eye_reference := Some 0 \<rparr>
       \<and> eyes_closed (blink_detection (Some (y, y)) st) = eyes_closed st
       \<and> blink_count (blink_detection (Some (y, y)) st) = blink_count st"
  using assms
  by (auto simp add: openness_sample_def eye_opening_def update_reference_def
      threshold_guard_def blink_detection_def detect_blink_def)

theorem zero_sample_skips_detection_witness:
  "open_eye_reference fresh_running = None
   \<and> blink_detection (Some (3 / 10, 3 / 10)) fresh_running
       = fresh_running\<lparr> open_eye_reference := Some 0 \<rparr>
   \<and> threshold_guard 0 (update_reference 0 fresh_running) = Skipped
   \<and> blink_count (blink_detection (Some (3 / 10, 3 / 10)) fresh_running) = 0
   \<and> \<not> eyes_closed (blink_detection (Some (3 / 10, 3 / 10)) fresh_running)"
proof -
  have h: "open_eye_reference fresh_running = None \<or> open_eye_reference fresh_running = Some 0"
    by (simp add: input_defs)
  show ?thesis
    using h zero_sample_skips_detection [OF h, of "3 / 10"]
    by (simp add: input_defs)
qed

section \<open>Blinks are runs of closed samples\<close>

lemma runs_from_none_below:
  "\<forall>x\<in>set xs. \<not> x < th \<Longrightarrow> runs_from c th xs = 0"
  by (induction xs arbitrary: c) auto

lemma length_run_starts_from:
  "length (filter (\<lambda>i. xs ! i < th \<and> (if i = 0 then \<not> c else \<not> xs ! (i - 1) < th)) [0..<length xs])
   = runs_from c th xs"
proof (induction xs arbitrary: c)
  case Nil
  show ?case by simp
next
  case (Cons x xs)
  have upt: "[0..<length (x # xs)] = 0 # map Suc [0..<length xs]"
    by (simp add: upt_conv_Cons map_Suc_upt del: upt_Suc)
  have shift: "filter (\<lambda>i. (x # xs) ! i < th \<and> (if i = 0 then \<not> c else \<not> (x # xs) ! (i - 1) < th)) (map Suc [0..<length xs])
     = map Suc (filter (\<lambda>i. xs ! i < th \<and> (if i = 0 then \<not> x < th else \<not> xs ! (i - 1) < th)) [0..<length xs])"
    by (simp add: filter_map comp_def nth_Cons' cong: conj_cong)
  show ?case
    unfolding upt by (simp add: shift Cons.IH [of "x < th"] del: upt_Suc)
qed

lemma maximal_runs_runs_from: "maximal_runs th xs = runs_from False th xs"
proof -
  have "(\<lambda>i. xs ! i < th \<and> (i = 0 \<or> \<not> xs ! (i - 1) < th))
      = (\<lambda>i. xs ! i < th \<and> (if i = 0 then \<not> False else \<not> xs ! (i - 1) < th))"
    by auto
  then show ?thesis
    unfolding maximal_runs_def run_starts_def
    using length_run_starts_from [of xs th False] by simp
qed

lemma detect_samples_reference:
  "open_eye_reference (detect_samples xs st) = open_eye_reference st"
  by (induction xs arbitrary: st) (simp_all add: detect_blink_fields)

lemma detect_blink_count:
  assumes "open_eye_reference st = Some R" and "R \<noteq> 0"
  shows "blink_count (detect_blink x st) =
           blink_count st + (if x < R * BLINK_RATIO \<and> \<not> eyes_closed st then 1 else 0)"
    and "eyes_closed (detect_blink x st) = (x < R * BLINK_RATIO)"
  using assms by (simp_all add: detect_blink_def threshold_guard_def)

lemma detect_samples_count:
  assumes "open_eye_reference st = Some R" and "R \<noteq> 0"
  shows "blink_count (detect_samples xs st) =
           blink_count st + int (runs_from (eyes_closed st) (R * BLINK_RATIO) xs)"
  using assms
proof (induction xs arbitrary: st)
  case Nil
  show ?case by simp
next
  case (Cons x xs)
  have ref: "open_eye_reference (detect_blink x st) = Some R"
    using Cons.prems by (simp add: detect_blink_fields)
  show ?case
    using Cons.IH [OF ref Cons.prems(2)] Cons.prems
    by (simp add: detect_blink_count)
qed

lemma detect_samples_zero_reference:
  assumes "open_eye_reference st = Some 0"
  shows "detect_samples xs st = st"
  using assms
  by (induction xs arbitrary: st) (simp_all add: detect_blink_def threshold_guard_def)

text \<open>
  Claim C1: a sequence of openness samples (non-negative, as line 113 computes them) is
  processed by the detection step from the open state with the reference fixed at
  \<open>R\<close>; the number of blinks it counts is the number of maximal runs of consecutive
  samples strictly below \<open>R * 0.4\<close>. With \<open>R = 0.10\<close> the samples
  0.10, 0.03, 0.03, 0.11, 0.02 have two such runs and give two blinks, as the instance
  after the theorem computes.
\<close>

theorem blinks_equal_maximal_runs:
  assumes "open_eye_reference st = Some R" and "\<not> eyes_closed st"
    and "\<forall>x\<in>set samples. 0 \<le> x"
  shows "blink_count (detect_samples samples st) =
           blink_count st + int (maximal_runs (R * BLINK_RATIO) samples)"
proof (cases "R = 0")
  case True
  have "\<forall>x\<in>set samples. \<not> x < R * BLINK_RATIO"
    using assms(3) True by auto
  then have "runs_from False (R * BLINK_RATIO) samples = 0"
    by (rule runs_from_none_below)
  then show ?thesis
    using assms(1) True by (simp add: detect_samples_zero_reference maximal_runs_runs_from)
next
  case False
  show ?thesis
    using detect_samples_count [OF assms(1) False, of samples] assms(2)
    by (simp add: maximal_runs_runs_from)
qed

theorem blinks_equal_maximal_runs_witness:
  "open_eye_reference (fresh_running\<lparr> open_eye_reference := Some (10 / 100) \<rparr>) = Some (10 / 100)
   \<and> \<not> eyes_closed (fresh_running\<lparr> open_eye_reference := Some (10 / 100) \<rparr>)
   \<and> maximal_runs (10 / 100 * BLINK_RATIO) [10 / 100, 3 / 100, 3 / 100, 11 / 100, 2 / 100] = 2
   \<and> blink_count (detect_samples [10 / 100, 3 / 100, 3 / 100, 11 / 100, 2 / 100]
        (fresh_running\<lparr> open_eye_reference := Some (10 / 100) \<rparr>)) = 2"
proof -
  let ?st = "fresh_running\<lparr> open_eye_reference := Some (10 / 100) \<rparr>"
  let ?xs = "[10 / 100, 3 / 100, 3 / 100, 11 / 100, 2 / 100] :: real list"
  have a: "open_eye_reference ?st = Some (10 / 100)" by simp
  have b: "\<not> eyes_closed ?st" by (simp add: fresh_running_def start_camera_def)
  have c: "\<forall>x\<in>set ?xs. 0 \<le> x" by simp
  have runs: "maximal_runs (10 / 100 * BLINK_RATIO) ?xs = 2"
    by (simp add: maximal_runs_def run_starts_def BLINK_RATIO_def upt_conv_Cons)
  have cnt: "blink_count ?st = 0" by (simp add: fresh_running_def start_camera_def)
  show ?thesis
    using a b runs cnt blinks_equal_maximal_runs [OF a b c] by simp
qed

text \<open>
  The same on whole frames, where line 116 runs before the detection step: while no
  sample exceeds the reference the two agree, and on the samples above, where 0.11 lifts
  the reference, lines 107-124 count two blinks as well.
\<close>

lemma update_reference_within:
  assumes "open_eye_reference st = Some R" and "eo \<le> R"
  shows "update_reference eo st = st"
  using assms by (simp add: update_reference_def)

lemma detect_frames_fixed_reference:
  assumes "open_eye_reference st = Some R"
    and "\<forall>lm\<in>set lms. eye_opening (fst lm) (snd lm) \<le> R"
  shows "detect_frames lms st = detect_samples (map (\<lambda>lm. eye_opening (fst lm) (snd lm)) lms) st"
  using assms
proof (induction lms arbitrary: st)
  case Nil
  show ?case by simp
next
  case (Cons lm lms)
  have le: "eye_opening (fst lm) (snd lm) \<le> R"
    using Cons.prems(2) by simp
  have step: "blink_detection (Some lm) st = detect_blink (eye_opening (fst lm) (snd lm)) st"
    using update_reference_within [OF Cons.prems(1) le]
    by (cases lm) (simp add: blink_detection_def openness_sample_def)
  have ref: "open_eye_reference (detect_blink (eye_opening (fst lm) (snd lm)) st) = Some R"
    using Cons.prems(1) by (simp add: detect_blink_fields)
  show ?case
    using Cons.IH [OF ref] Cons.prems(2) by (simp add: step)
qed

lemma spec_scenario_on_frames:
  "blink_count (detect_frames
      [(10 / 100, 0), (3 / 100, 0), (3 / 100, 0), (11 / 100, 0), (2 / 100, 0)]
      watching_session) = 2"
  by (simp add: watching_session_eq detect_defs)

section \<open>The counter moves on a closing frame only\<close>

lemma blink_detection_count:
  "blink_count (blink_detection lm st) =
     blink_count st + (if \<not> eyes_closed st \<and> eyes_closed (blink_detection lm st) then 1 else 0)"
  by (simp add: blink_detection_def detect_blink_def update_reference_fields
      split: option.splits branch.splits)

lemma step_session_eyes_closed:
  "eyes_closed (step_session (loop_body f st)) =
     (if read_success f then eyes_closed (blink_detection (landmarks f) st) else eyes_closed st)"
  by (simp add: step_session_loop_body minute_handling_fields gentle_reminder_fields)

lemma step_session_count:
  "blink_count (step_session (loop_body f st)) =
     (if read_success f then blink_count (minute_handling f (blink_detection (landmarks f) st))
      else blink_count st)"
  by (simp add: step_session_loop_body gentle_reminder_fields)

lemma blink_detection_below:
  assumes "frame_below lm st"
  shows "blink_count (blink_detection (Some lm) st) = blink_count st + (if eyes_closed st then 0 else 1)"
    and "eyes_closed (blink_detection (Some lm) st)"
  using assms
  by (cases lm; simp add: frame_below_def blink_detection_def openness_sample_def
      detect_blink_def update_reference_fields)+

text \<open>
  Claim C4: blink detection adds one to the counter exactly on a frame that takes
  \<open>eyes_closed\<close> from false to true, and nothing on any other frame (one that opens
  the eyes, or one processed while they are closed); over the whole iteration the only
  other change of the counter is the minute reset. Two consecutive frames below the
  threshold add one in total when the first of them closes the eyes, the second being
  processed while already closed, and nothing when the eyes were closed before both.
\<close>

theorem count_increments_on_closing_only:
  "blink_count (blink_detection lm st) =
     blink_count st + (if \<not> eyes_closed st \<and> eyes_closed (blink_detection lm st) then 1 else 0)
   \<and> blink_count (step_session (loop_body f st)) =
       (if read_success f \<and> minute_due f (blink_detection (landmarks f) st) then 0
        else blink_count st
          + (if \<not> eyes_closed st \<and> eyes_closed (step_session (loop_body f st)) then 1 else 0))
   \<and> (frame_below lm1 st \<and> frame_below lm2 (blink_detection (Some lm1) st) \<longrightarrow>
        blink_count (blink_detection (Some lm2) (blink_detection (Some lm1) st)) =
          blink_count st + (if eyes_closed st then 0 else 1))"
proof (intro conjI impI)
  show "blink_count (blink_detection lm st) =
     blink_count st + (if \<not> eyes_closed st \<and> eyes_closed (blink_detection lm st) then 1 else 0)"
    by (rule blink_detection_count)
next
  show "blink_count (step_session (loop_body f st)) =
       (if read_success f \<and> minute_due f (blink_detection (landmarks f) st) then 0
        else blink_count st
          + (if \<not> eyes_closed st \<and> eyes_closed (step_session (loop_body f st)) then 1 else 0))"
    using blink_detection_count [of "landmarks f" st]
    by (simp add: step_session_count step_session_eyes_closed minute_handling_def)
next
  assume "frame_below lm1 st \<and> frame_below lm2 (blink_detection (Some lm1) st)"
  then have a: "frame_below lm1 st" and b: "frame_below lm2 (blink_detection (Some lm1) st)"
    by simp_all
  show "blink_count (blink_detection (Some lm2) (blink_detection (Some lm1) st)) =
          blink_count st + (if eyes_closed st then 0 else 1)"
    using blink_detection_below [OF a] blink_detection_below(1) [OF b] by simp
qed

theorem count_increments_on_closing_only_witness:
  "frame_below (3 / 100, 0) watching_session
   \<and> frame_below (2 / 100, 0) (blink_detection (Some (3 / 100, 0)) watching_session)
   \<and> \<not> eyes_closed watching_session
   \<and> blink_count watching_session = 0
   \<and> blink_count (blink_detection (Some (3 / 100, 0)) watching_session) = 1
   \<and> blink_count (blink_detection (Some (2 / 100, 0))
        (blink_detection (Some (3 / 100, 0)) watching_session)) = 1"
proof -
  have a: "frame_below (3 / 100, 0) watching_session"
    by (simp add: frame_below_def watching_session_eq detect_defs)
  have b: "frame_below (2 / 100, 0) (blink_detection (Some (3 / 100, 0)) watching_session)"
    by (simp add: frame_below_def watching_session_eq detect_defs)
  have c: "blink_count (blink_detection (Some (3 / 100, 0)) watching_session) = 1"
    by (simp add: watching_session_eq detect_defs)
  show ?thesis
    using a b c
      count_increments_on_closing_only [of "Some (3 / 100, 0)" watching_session
        "frame_at 1 None" "(3 / 100, 0)" "(2 / 100, 0)"]
    by (simp add: watching_session_eq)
qed

section \<open>The reference never decreases\<close>

lemma ref_le_refl: "ref_le r r"
  by (cases r) simp_all

lemma ref_le_trans: "ref_le a b \<Longrightarrow> ref_le b c \<Longrightarrow> ref_le a c"
  by (cases a; cases b; cases c) simp_all

lemma step_session_reference:
  "open_eye_reference (step_session (loop_body f st)) =
     (if read_success f then
        (case openness_sample (landmarks f) of
           None \<Rightarrow> open_eye_reference st
         | Some eo \<Rightarrow>
             if (case open_eye_reference st of None \<Rightarrow> True | Some r \<Rightarrow> r < eo)
             then Some eo else open_eye_reference st)
      else open_eye_reference st)"
  by (simp add: step_session_loop_body minute_handling_fields gentle_reminder_fields
      blink_detection_def detect_blink_fields update_reference_def split: option.splits)

lemma loop_body_ref_le:
  "ref_le (open_eye_reference st) (open_eye_reference (step_session (loop_body f st)))"
  by (simp add: step_session_reference ref_le_refl split: option.splits)

lemma camera_loop_ref_le:
  "ref_le (open_eye_reference st) (open_eye_reference (fst (snd (camera_loop sb fs st))))"
proof (induction fs arbitrary: st)
  case Nil
  show ?case by (simp add: ref_le_refl)
next
  case (Cons f fs)
  show ?case
  proof (cases "loop_body f st")
    case (Break st' es)
    then show ?thesis
      using loop_body_ref_le [of st f] by (simp add: ref_le_refl)
  next
    case (Continue st' es)
    have "ref_le (open_eye_reference st) (open_eye_reference st')"
      using loop_body_ref_le [of st f] Continue by simp
    then show ?thesis
      using Continue Cons.IH [of st'] ref_le_trans
      by (auto simp add: ref_le_refl split: prod.splits)
  qed
qed

lemma camera_feed_reference:
  "open_eye_reference (fst (snd (camera_feed sb fs st)))
     = open_eye_reference (fst (snd (camera_loop sb fs st)))"
proof (cases "camera_active st")
  case True
  then show ?thesis
    by (cases "camera_loop sb fs st") (simp add: camera_feed_def)
next
  case False
  then show ?thesis
    by (cases fs) (simp_all add: camera_feed_def)
qed

text \<open>
  Claim C5: an iteration writes the reference only at line 116, setting it to the
  sample exactly when it is unset or the sample is greater; so over the frames of a
  session the reference never decreases (unset lying below every value); and the Start
  action sets it back to unset.
\<close>

theorem reference_never_decreases:
  "open_eye_reference (step_session (loop_body f st)) =
     (if read_success f then
        (case openness_sample (landmarks f) of
           None \<Rightarrow> open_eye_reference st
         | Some eo \<Rightarrow>
             if (case open_eye_reference st of None \<Rightarrow> True | Some r \<Rightarrow> r < eo)
             then Some eo else open_eye_reference st)
      else open_eye_reference st)
   \<and> ref_le (open_eye_reference st) (open_eye_reference (fst (snd (camera_feed sb fs st))))
   \<and> open_eye_reference (start_camera t1 t2 st) = None"
  by (simp add: step_session_reference camera_feed_reference camera_loop_ref_le start_camera_def)

theorem reference_never_decreases_witness:
  "open_eye_reference (step_session (loop_body (frame_at 1 (Some (10 / 100, 0))) fresh_running))
     = Some (10 / 100)
   \<and> open_eye_reference (step_session (loop_body (frame_at 2 (Some (5 / 100, 0))) watching_session))
     = Some (10 / 100)
   \<and> open_eye_reference (fst (snd (camera_feed False
          [frame_at 1 (Some (5 / 100, 0)), frame_at 2 (Some (20 / 100, 0))] watching_session)))
     = Some (20 / 100)
   \<and> ref_le (open_eye_reference watching_session)
       (open_eye_reference (fst (snd (camera_feed False
          [frame_at 1 (Some (5 / 100, 0)), frame_at 2 (Some (20 / 100, 0))] watching_session))))
   \<and> open_eye_reference (start_camera 7 7 watching_session) = None"
proof -
  have run: "open_eye_reference (fst (snd (camera_feed False
          [frame_at 1 (Some (5 / 100, 0)), frame_at 2 (Some (20 / 100, 0))] watching_session)))
     = Some (20 / 100)"
    by (simp add: camera_feed_def watching_session_eq frame_at_def frame_defs const_defs Let_def)
  show ?thesis
    using run
      reference_never_decreases [of "frame_at 1 (Some (10 / 100, 0))" fresh_running False
        "[frame_at 1 (Some (5 / 100, 0)), frame_at 2 (Some (20 / 100, 0))]" 7 7]
      reference_never_decreases [of "frame_at 2 (Some (5 / 100, 0))" watching_session False
        "[frame_at 1 (Some (5 / 100, 0)), frame_at 2 (Some (20 / 100, 0))]" 7 7]
    by (simp add: input_defs openness_sample_def eye_opening_def watching_session_eq)
qed

section \<open>The reminder is drawn for ten seconds\<close>

lemma glyph_drawn_loop_body:
  "glyph_drawn (loop_body f st) =
     (read_success f \<and> \<not> t_total f - start_time st \<ge> real_of_int TOTAL_TIME
      \<and> reminder_visible f (minute_handling f (blink_detection (landmarks f) st)))"
  by (simp add: glyph_drawn_def loop_body_def Let_def draw_overlay_def
      minute_handling_fields blink_detection_fields)

lemma step_session_reminder_start:
  "reminder_start (step_session (loop_body f st)) =
     (if activates f st then t_reminder_set f else reminder_start st)"
  by (simp add: step_session_loop_body activates_def gentle_reminder_fields
      minute_handling_def blink_detection_fields)

lemma step_session_show_reminder:
  assumes "read_success f" and "\<not> t_total f - start_time st \<ge> real_of_int TOTAL_TIME"
  shows "show_reminder (step_session (loop_body f st)) =
           reminder_visible f (minute_handling f (blink_detection (landmarks f) st))"
  using assms
  by (simp add: step_session_loop_body gentle_reminder_def reminder_visible_def)

text \<open>
  Claim C7: \<open>reminder_start\<close> is written by an activation only, so it is the time of
  the latest activation. Whenever an iteration draws the reminder, at most
  \<open>REMINDER_DURATION\<close> = 10 seconds have passed since then; an iteration that does
  not activate the reminder and is processed more than 10 seconds after
  \<open>reminder_start\<close> does not draw it and, when it reaches line 168, switches
  \<open>show_reminder\<close> off, whether or not the minute is due on that frame.
\<close>

theorem reminder_drawn_only_within_duration:
  "(glyph_drawn (loop_body f st) \<longrightarrow>
      show_reminder (step_session (loop_body f st))
      \<and> t_reminder_check f - reminder_start (step_session (loop_body f st)) \<le> 10)
   \<and> reminder_start (step_session (loop_body f st)) =
       (if activates f st then t_reminder_set f else reminder_start st)
   \<and> (\<not> activates f st \<and> t_reminder_check f - reminder_start st > 10 \<longrightarrow>
        \<not> glyph_drawn (loop_body f st)
        \<and> (read_success f \<and> t_total f - start_time st < 300 \<longrightarrow>
             \<not> show_reminder (step_session (loop_body f st))))"
proof (intro conjI impI)
  assume drawn: "glyph_drawn (loop_body f st)"
  then have rs: "read_success f" and tt: "\<not> t_total f - start_time st \<ge> real_of_int TOTAL_TIME"
    and vis: "reminder_visible f (minute_handling f (blink_detection (landmarks f) st))"
    by (simp_all add: glyph_drawn_loop_body)
  show "show_reminder (step_session (loop_body f st))"
    using vis by (simp add: step_session_show_reminder [OF rs tt])
  have "reminder_start (step_session (loop_body f st))
      = reminder_start (minute_handling f (blink_detection (landmarks f) st))"
    using rs tt by (simp add: step_session_loop_body gentle_reminder_fields)
  then show "t_reminder_check f - reminder_start (step_session (loop_body f st)) \<le> 10"
    using vis by (simp add: reminder_visible_def REMINDER_DURATION_def)
next
  show "reminder_start (step_session (loop_body f st)) =
       (if activates f st then t_reminder_set f else reminder_start st)"
    by (rule step_session_reminder_start)
next
  assume h: "\<not> activates f st \<and> t_reminder_check f - reminder_start st > 10"
  then have same: "reminder_start (step_session (loop_body f st)) = reminder_start st"
    by (simp add: step_session_reminder_start)
  show nd: "\<not> glyph_drawn (loop_body f st)"
  proof
    assume drawn: "glyph_drawn (loop_body f st)"
    then have rs: "read_success f"
      and tt: "\<not> t_total f - start_time st \<ge> real_of_int TOTAL_TIME"
      and vis: "reminder_visible f (minute_handling f (blink_detection (landmarks f) st))"
      by (simp_all add: glyph_drawn_loop_body)
    have "reminder_start (minute_handling f (blink_detection (landmarks f) st))
        = reminder_start (step_session (loop_body f st))"
      using rs tt by (simp add: step_session_loop_body gentle_reminder_fields)
    then show False
      using vis same h by (simp add: reminder_visible_def REMINDER_DURATION_def)
  qed
  assume "read_success f \<and> t_total f - start_time st < 300"
  then have rs: "read_success f"
    and tt: "\<not> t_total f - start_time st \<ge> real_of_int TOTAL_TIME"
    by (simp_all add: TOTAL_TIME_def)
  show "\<not> show_reminder (step_session (loop_body f st))"
    using nd by (simp add: step_session_show_reminder [OF rs tt] glyph_drawn_loop_body rs tt)
qed

theorem reminder_drawn_only_within_duration_witness:
  "glyph_drawn (loop_body (frame_at 65 None) reminding_session)
   \<and> t_reminder_check (frame_at 65 None)
       - reminder_start (step_session (loop_body (frame_at 65 None) reminding_session)) \<le> 10
   \<and> \<not> activates (frame_at 71 None) reminding_session
   \<and> t_reminder_check (frame_at 71 None) - reminder_start reminding_session > 10
   \<and> \<not> glyph_drawn (loop_body (frame_at 71 None) reminding_session)
   \<and> \<not> show_reminder (step_session (loop_body (frame_at 71 None) reminding_session))"
proof -
  have a: "glyph_drawn (loop_body (frame_at 65 None) reminding_session)"
    by (simp add: glyph_drawn_def reminding_session_eq frame_at_def frame_defs const_defs)
  have b: "\<not> activates (frame_at 71 None) reminding_session
           \<and> t_reminder_check (frame_at 71 None) - reminder_start reminding_session > 10"
    by (simp add: activates_def reminding_session_eq frame_at_def frame_defs const_defs)
  have c: "read_success (frame_at 71 None)
           \<and> t_total (frame_at 71 None) - start_time reminding_session < 300"
    by (simp add: reminding_session_eq frame_at_def)
  show ?thesis
    using a b c
      reminder_drawn_only_within_duration [of "frame_at 65 None" reminding_session]
      reminder_drawn_only_within_duration [of "frame_at 71 None" reminding_session]
    by simp
qed

section \<open>The session ends after five minutes\<close>

lemma camera_loop_running:
  "camera_loop sb fs st = (False, st', es) \<Longrightarrow> camera_active st' \<and> \<not> sb"
proof (induction fs arbitrary: st es)
  case Nil
  then show ?case by auto
next
  case (Cons f fs)
  then show ?case
    by (auto split: if_splits step.splits prod.splits)
qed

lemma camera_loop_start_time:
  "camera_loop sb fs st = (False, st', es) \<Longrightarrow> start_time st' = start_time st"
proof (induction fs arbitrary: st es)
  case Nil
  then show ?case by auto
next
  case (Cons f fs)
  from Cons.prems obtain s1 e1 e2 where
    lb: "loop_body f st = Continue s1 e1" and rest: "camera_loop sb fs s1 = (False, st', e2)"
    by (auto split: if_splits step.splits prod.splits)
  have "start_time s1 = start_time st"
    using lb by (auto simp add: loop_body_def Let_def gentle_reminder_fields
        minute_handling_fields blink_detection_fields split: if_splits)
  then show ?case
    using Cons.IH [OF rest] by simp
qed

lemma camera_loop_append:
  "camera_loop sb pre st = (False, st1, es1) \<Longrightarrow>
   camera_loop sb (pre @ rest) st =
     (case camera_loop sb rest st1 of (left, st2, es2) \<Rightarrow> (left, st2, es1 @ es2))"
proof (induction pre arbitrary: st es1)
  case Nil
  then show ?case
    by (cases rest) (auto split: step.splits prod.splits)
next
  case (Cons f fs)
  from Cons.prems obtain s1 e1 e2 where
    act: "camera_active st \<and> \<not> sb" and
    lb: "loop_body f st = Continue s1 e1" and tl: "camera_loop sb fs s1 = (False, st1, e2)"
    and es: "es1 = e1 @ e2"
    by (auto split: if_splits step.splits prod.splits)
  show ?case
    using act lb es Cons.IH [OF tl] by (simp split: prod.splits)
qed

lemma camera_loop_no_release:
  "CameraRelease \<notin> set (snd (snd (camera_loop sb fs st)))"
proof (induction fs arbitrary: st)
  case Nil
  show ?case by simp
next
  case (Cons f fs)
  have body: "CameraRelease \<notin> set (step_effects (loop_body f st))"
    by (simp add: loop_body_def Let_def)
  show ?case
  proof (cases "loop_body f st")
    case (Break s1 e1)
    then show ?thesis using body by simp
  next
    case (Continue s1 e1)
    then show ?thesis
      using body Cons.IH [of s1] by (auto split: prod.splits)
  qed
qed

lemma releases_append: "releases (xs @ ys) = releases xs + releases ys"
  by (simp add: releases_def)

lemma releases_none: "CameraRelease \<notin> set es \<Longrightarrow> releases es = 0"
  by (induction es) (auto simp add: releases_def)

lemma camera_feed_inactive:
  "\<not> camera_active st \<Longrightarrow> camera_feed sb fs st = (True, st, [StInfo])"
  by (simp add: camera_feed_def)

lemma timeout_step:
  assumes "read_success f" and "t_total f - start_time st \<ge> 300"
  shows "loop_body f st =
           Break ((minute_handling f (blink_detection (landmarks f) st))\<lparr> camera_active := False \<rparr>)
             [StSuccess completed_msg]"
  using assms
  by (simp add: loop_body_def Let_def minute_handling_fields blink_detection_fields TOTAL_TIME_def)

text \<open>
  Claim C8: the loop has been running over some frames when a frame is read at which
  300 seconds or more have elapsed since \<open>start_time\<close>. The loop is left on that
  frame, whatever frames would follow; the session is marked inactive and the success
  message is shown; the camera is released exactly once; and the next run of the script
  does not enter the camera block again.
\<close>

theorem session_completes_at_total_time:
  assumes "camera_active st"
    and "camera_loop False pre st = (False, st1, es1)"
    and "read_success f"
    and "t_total f - start_time st \<ge> 300"
  shows "camera_feed False (pre @ f # fs) st =
           (True,
            (minute_handling f (blink_detection (landmarks f) st1))\<lparr> camera_active := False \<rparr>,
            CameraOpen # es1 @ [StSuccess completed_msg, CameraRelease, FaceMeshClose])
       \<and> \<not> camera_active (fst (snd (camera_feed False (pre @ f # fs) st)))
       \<and> releases (snd (snd (camera_feed False (pre @ f # fs) st))) = 1
       \<and> camera_feed sb fs' (fst (snd (camera_feed False (pre @ f # fs) st))) =
           (True, fst (snd (camera_feed False (pre @ f # fs) st)), [StInfo])"
proof -
  have run: "camera_active st1"
    using camera_loop_running [OF assms(2)] by simp
  have tt: "t_total f - start_time st1 \<ge> 300"
    using camera_loop_start_time [OF assms(2)] assms(4) by simp
  have last: "camera_loop False (f # fs) st1 =
      (True, (minute_handling f (blink_detection (landmarks f) st1))\<lparr> camera_active := False \<rparr>,
       [StSuccess completed_msg])"
    using run timeout_step [OF assms(3) tt] by simp
  have loop: "camera_loop False (pre @ f # fs) st =
      (True, (minute_handling f (blink_detection (landmarks f) st1))\<lparr> camera_active := False \<rparr>,
       es1 @ [StSuccess completed_msg])"
    using camera_loop_append [OF assms(2), of "f # fs"] last by simp
  have feed: "camera_feed False (pre @ f # fs) st =
           (True,
            (minute_handling f (blink_detection (landmarks f) st1))\<lparr> camera_active := False \<rparr>,
            CameraOpen # es1 @ [StSuccess completed_msg, CameraRelease, FaceMeshClose])"
    using assms(1) loop by (simp add: camera_feed_def)
  have "CameraRelease \<notin> set es1"
    using camera_loop_no_release [of False pre st] assms(2) by simp
  then have "releases es1 = 0"
    by (rule releases_none)
  then have "releases (CameraOpen # es1 @ [StSuccess completed_msg, CameraRelease, FaceMeshClose]) = 1"
    using releases_append [of "[CameraOpen]" "es1 @ [StSuccess completed_msg, CameraRelease, FaceMeshClose]"]
      releases_append [of es1 "[StSuccess completed_msg, CameraRelease, FaceMeshClose]"]
    by (simp add: releases_def)
  then show ?thesis
    using feed by (simp add: camera_feed_inactive)
qed

theorem session_completes_at_total_time_witness:
  "camera_active fresh_running
   \<and> fst (camera_loop False [frame_at 299 None] fresh_running) = False
   \<and> read_success (frame_at 300 None)
   \<and> t_total (frame_at 300 None) - start_time fresh_running \<ge> 300
   \<and> fst (camera_feed False ([frame_at 299 None] @ frame_at 300 None # [frame_at 301 None])
        fresh_running) = True
   \<and> \<not> camera_active (fst (snd (camera_feed False
        ([frame_at 299 None] @ frame_at 300 None # [frame_at 301 None]) fresh_running)))
   \<and> releases (snd (snd (camera_feed False
        ([frame_at 299 None] @ frame_at 300 None # [frame_at 301 None]) fresh_running))) = 1
   \<and> snd (snd (camera_feed True [frame_at 302 None] (fst (snd (camera_feed False
        ([frame_at 299 None] @ frame_at 300 None # [frame_at 301 None]) fresh_running)))))
       = [StInfo]"
proof -
  have a: "camera_active fresh_running"
    by (simp add: input_defs)
  obtain st1 es1 where b: "camera_loop False [frame_at 299 None] fresh_running = (False, st1, es1)"
    by (simp add: input_defs frame_defs const_defs Let_def)
  have c: "read_success (frame_at 300 None)"
    by (simp add: frame_at_def)
  have d: "t_total (frame_at 300 None) - start_time fresh_running \<ge> 300"
    by (simp add: input_defs)
  note compl = session_completes_at_total_time
    [OF a b c d, of "[frame_at 301 None]" True "[frame_at 302 None]"]
  have e: "fst (camera_feed False ([frame_at 299 None] @ frame_at 300 None # [frame_at 301 None])
        fresh_running) = True"
    using compl by (simp only: fst_conv)
  have f: "\<not> camera_active (fst (snd (camera_feed False
        ([frame_at 299 None] @ frame_at 300 None # [frame_at 301 None]) fresh_running)))"
    using compl by blast
  have g: "releases (snd (snd (camera_feed False
        ([frame_at 299 None] @ frame_at 300 None # [frame_at 301 None]) fresh_running))) = 1"
    using compl by blast
  have b': "fst (camera_loop False [frame_at 299 None] fresh_running) = False"
    by (simp only: b fst_conv)
  have h: "snd (snd (camera_feed True [frame_at 302 None] (fst (snd (camera_feed False
        ([frame_at 299 None] @ frame_at 300 None # [frame_at 301 None]) fresh_running)))))
       = [StInfo]"
    using compl [THEN conjunct2, THEN conjunct2, THEN conjunct2] by (simp only: snd_conv)
  show ?thesis
    using a b' c d e f g h by blast
qed

end
